theory Spec2Isabelle
  imports Main
begin

section \<open>The screen recorder of src/src/App.jsx\<close>

text \<open>
  The component \<open>ScreenRecorderApp\<close> keeps five React state variables and eight refs and
  talks to the browser: media streams and their tracks, an audio context, a MediaRecorder,
  an interval timer, object URLs and the clock. The model is one record, \<open>world\<close>, holding
  the component's state, its refs and the part of the browser the component acts on, with
  every handler of the source as a function from worlds to worlds. Each call the component
  makes into the browser is appended to \<open>trace\<close>, so that how often and in which order
  something happened can be read off a run.

  What the browser decides (whether a permission is granted, which formats are supported,
  what the clock reads, when a queued callback is delivered) enters as an argument of the
  handler or as an event of \<open>step\<close>.
\<close>

subsection \<open>Browser objects\<close>

text \<open>A MediaStream is the list of its tracks; a track is named by a number.\<close>

record stream =
  videoTracks :: "nat list"
  audioTracks :: "nat list"

definition getTracks :: "stream \<Rightarrow> nat list" where
  "getTracks s = videoTracks s @ audioTracks s"

text \<open>A Blob is opaque but for its size and its content type.\<close>

record blob =
  blob_size :: nat
  blob_type :: string

text \<open>
  A MediaRecorder: its \<open>state\<close> attribute, the \<open>mimeType\<close> option its constructor was given
  (\<open>None\<close> when the second argument was \<open>undefined\<close>), the \<open>mimeType\<close> variable its
  \<open>onstop\<close> handler closed over, and the number of \<open>stop\<close> events the browser has queued
  for it and not yet delivered.
\<close>

datatype recording_state = Inactive | Recording | Paused

record recorder =
  rec_state :: recording_state
  rec_options :: "string option"
  rec_mimeType :: string
  pending_stop :: nat

text \<open>A Date, by its UTC fields.\<close>

record date =
  year :: int
  month :: nat
  day :: nat
  hours :: nat
  minutes :: nat
  seconds :: nat
  milliseconds :: nat

datatype source_node = SystemAudio | MicAudio

datatype action =
    A_getDisplayMedia
  | A_getUserMedia
  | A_newAudioContext
  | A_createMediaStreamSource source_node
  | A_createMediaStreamDestination
  | A_connect source_node
  | A_newMediaStream "nat list"
  | A_newMediaRecorder "string option"
  | A_addEndedListener nat
  | A_recorderStart
  | A_recorderStop
  | A_setInterval nat nat
  | A_clearInterval nat
  | A_trackStop nat
  | A_audioContextClose nat
  | A_newBlob nat string
  | A_createObjectURL string
  | A_revokeObjectURL string
  | A_download string string
  | A_consoleError string
  | A_cleanupStreams

subsection \<open>The component and the browser state it acts on\<close>

record world =
  \<comment> \<open>useState\<close>
  isSupported :: bool
  isRecording :: bool
  elapsedMs :: int
  previewURL :: string
  error :: string
  \<comment> \<open>useRef\<close>
  mediaRecorderRef :: "recorder option"
  chunksRef :: "blob list"
  displayStreamRef :: "stream option"
  micStreamRef :: "stream option"
  mixedStreamRef :: "stream option"
  audioCtxRef :: "nat option"
  tickRef :: "nat option"
  startTimeRef :: int
  \<comment> \<open>the browser\<close>
  endedTracks :: "nat list"
  closedContexts :: "nat list"
  intervals :: "(nat \<times> nat) list"
  objectURLs :: "string list"
  handles :: nat
  closeThrows :: bool
  isTypeSupported :: "string \<Rightarrow> bool"
  awaitingDisplay :: nat
  awaitingMic :: "stream list"
  trace :: "action list"

definition emit :: "action \<Rightarrow> world \<Rightarrow> world" where
  "emit a w = w\<lparr>trace := trace w @ [a]\<rparr>"

definition MAX_DURATION_MS :: int where
  "MAX_DURATION_MS = 3 * 60 * 1000"

text \<open>
  \<open>x || d\<close> on a value that is a string or \<open>undefined\<close>: the empty string is falsy as
  \<open>undefined\<close> is.
\<close>

fun or_default :: "string option \<Rightarrow> string \<Rightarrow> string" where
  "or_default None d = d"
| "or_default (Some s) d = (if s = [] then d else s)"

subsection \<open>Browser calls\<close>

text \<open>
  \<open>track.stop()\<close> ends the track; on a track that has ended it does nothing. It never
  throws.
\<close>

definition track_stop :: "nat \<Rightarrow> world \<Rightarrow> world" where
  "track_stop t w = emit (A_trackStop t) (w\<lparr>endedTracks := List.insert t (endedTracks w)\<rparr>)"

text \<open>
  \<open>audioCtx.close()\<close>. The source wraps the call in \<open>try\<close>, so the model lets it throw:
  the world's \<open>closeThrows\<close> says whether it does, and the result carries the exception.
\<close>

definition audioContext_close :: "nat \<Rightarrow> world \<Rightarrow> string option \<times> world" where
  "audioContext_close c w =
     (let w1 = emit (A_audioContextClose c) w in
      if closeThrows w1 then (Some ''InvalidStateError'', w1)
      else (None, w1\<lparr>closedContexts := List.insert c (closedContexts w1)\<rparr>))"

text \<open>
  \<open>URL.createObjectURL\<close> mints a handle that no earlier call returned; it is never the
  empty string. \<open>digit k\<close> is the last decimal digit of \<open>k\<close>.
\<close>

definition digit :: "nat \<Rightarrow> char" where
  "digit k = ''0123456789'' ! (k mod 10)"

fun decimal :: "nat \<Rightarrow> string" where
  "decimal n = (if n < 10 then [digit n] else decimal (n div 10) @ [digit n])"

declare decimal.simps [simp del]

definition createObjectURL :: "blob \<Rightarrow> world \<Rightarrow> string \<times> world" where
  "createObjectURL b w =
     (let url = ''blob:'' @ decimal (handles w)
      in (url, emit (A_createObjectURL url)
                 (w\<lparr>handles := Suc (handles w), objectURLs := url # objectURLs w\<rparr>)))"

definition revokeObjectURL :: "string \<Rightarrow> world \<Rightarrow> world" where
  "revokeObjectURL url w =
     emit (A_revokeObjectURL url) (w\<lparr>objectURLs := removeAll url (objectURLs w)\<rparr>)"

text \<open>\<open>new Blob(chunks, {type})\<close>: the concatenation of the chunks.\<close>

definition newBlob :: "blob list \<Rightarrow> string \<Rightarrow> world \<Rightarrow> blob \<times> world" where
  "newBlob chunks ty w =
     (let b = \<lparr>blob_size = sum_list (map blob_size chunks), blob_type = ty\<rparr>
      in (b, emit (A_newBlob (blob_size b) ty) w))"

text \<open>
  \<open>window.setInterval\<close> with its period in milliseconds: it returns an integer greater
  than zero and the browser keeps the interval with its period; \<open>clearInterval\<close>
  removes the interval, after which its callback is never run again.
\<close>

definition setInterval :: "nat \<Rightarrow> world \<Rightarrow> nat \<times> world" where
  "setInterval period w =
     (let i = Suc (handles w)
      in (i, emit (A_setInterval i period)
               (w\<lparr>handles := Suc (handles w), intervals := (i, period) # intervals w\<rparr>)))"

definition clearInterval :: "nat \<Rightarrow> world \<Rightarrow> world" where
  "clearInterval i w =
     emit (A_clearInterval i) (w\<lparr>intervals := filter (\<lambda>x. fst x \<noteq> i) (intervals w)\<rparr>)"

text \<open>
  \<open>recorder.stop()\<close> on a recorder that is not inactive: the state becomes \<open>inactive\<close>
  at once and a \<open>stop\<close> event is queued. The source only calls it under that guard.
\<close>

definition recorder_stop :: "recorder \<Rightarrow> recorder" where
  "recorder_stop r = r\<lparr>rec_state := Inactive, pending_stop := Suc (pending_stop r)\<rparr>"

subsection \<open>The handlers of the component\<close>

text \<open>\<open>stopTimer\<close>, lines 62 to 67. An interval id is truthy when it is not 0.\<close>

definition stopTimer :: "world \<Rightarrow> world" where
  "stopTimer w =
     (case tickRef w of
        None \<Rightarrow> w
      | Some i \<Rightarrow> if i = 0 then w else (clearInterval i w)\<lparr>tickRef := None\<rparr>)"

text \<open>
  \<open>stopRecording\<close>, lines 164 to 171. The \<open>try\<close> around the call of \<open>stop\<close> catches
  whatever it throws; under the guard it throws nothing.
\<close>

definition stopRecording :: "world \<Rightarrow> world" where
  "stopRecording w =
     stopTimer
       (case mediaRecorderRef w of
          None \<Rightarrow> w
        | Some r \<Rightarrow>
            if rec_state r \<noteq> Inactive
            then emit A_recorderStop (w\<lparr>mediaRecorderRef := Some (recorder_stop r)\<rparr>)
            else w)"

text \<open>
  \<open>startTimer\<close>, lines 49 to 60, with the value \<open>Date.now()\<close> returns, and the callback
  it hands to \<open>setInterval\<close>, with the value \<open>Date.now()\<close> returns when it runs.
\<close>

definition startTimer :: "int \<Rightarrow> world \<Rightarrow> world" where
  "startTimer now w =
     (let w1 = w\<lparr>startTimeRef := now, elapsedMs := 0\<rparr>;
          (i, w2) = setInterval 250 w1
      in w2\<lparr>tickRef := Some i\<rparr>)"

definition tick :: "int \<Rightarrow> world \<Rightarrow> world" where
  "tick now w =
     (let ms = now - startTimeRef w;
          w1 = w\<lparr>elapsedMs := ms\<rparr>
      in if ms \<ge> MAX_DURATION_MS then stopRecording w1 else w1)"

text \<open>\<open>pickMimeType\<close>, lines 69 to 76, over the browser's \<open>MediaRecorder.isTypeSupported\<close>.\<close>

definition cand :: "string list" where
  "cand = [''video/webm;codecs=vp9,opus'', ''video/webm;codecs=vp8,opus'', ''video/webm'']"

definition pickMimeType :: "(string \<Rightarrow> bool) \<Rightarrow> string" where
  "pickMimeType supported = or_default (List.find supported cand) ''''"

text \<open>
  \<open>cleanupStreams\<close>, lines 149 to 162. \<open>stopTracks\<close> goes through optional chaining, so a
  null reference is skipped. The result carries the exception the function leaves with,
  if any; what \<open>close\<close> throws is caught by the empty \<open>catch\<close>.
\<close>

definition stopTracks :: "stream option \<Rightarrow> world \<Rightarrow> world" where
  "stopTracks s w = (case s of None \<Rightarrow> w | Some st \<Rightarrow> fold track_stop (getTracks st) w)"

definition cleanupStreams :: "world \<Rightarrow> string option \<times> world" where
  "cleanupStreams w =
     (let w0 = emit A_cleanupStreams w;
          w1 = stopTracks (displayStreamRef w0) w0;
          w2 = stopTracks (micStreamRef w1) w1;
          w3 = stopTracks (mixedStreamRef w2) w2;
          w4 = w3\<lparr>displayStreamRef := None, micStreamRef := None, mixedStreamRef := None\<rparr>
      in case audioCtxRef w4 of
           None \<Rightarrow> (None, w4)
         | Some c \<Rightarrow>
             (case audioContext_close c w4 of
                (thrown, w5) \<Rightarrow> (None, w5\<lparr>audioCtxRef := None\<rparr>)))"

text \<open>
  \<open>recorder.ondataavailable\<close>, lines 111 to 113; \<open>e.data\<close> may be null.
\<close>

definition ondataavailable :: "blob option \<Rightarrow> world \<Rightarrow> world" where
  "ondataavailable d w =
     (case d of
        None \<Rightarrow> w
      | Some b \<Rightarrow> if blob_size b > 0 then w\<lparr>chunksRef := chunksRef w @ [b]\<rparr> else w)"

text \<open>
  \<open>recorder.onstop\<close>, lines 115 to 122, for the \<open>mimeType\<close> the handler closed over.
\<close>

definition onstop :: "string \<Rightarrow> world \<Rightarrow> world" where
  "onstop mimeType w =
     (let w1 = stopTimer w;
          (b, w2) = newBlob (chunksRef w1) (or_default (Some mimeType) ''video/webm'') w1;
          (url, w3) = createObjectURL b w2;
          w4 = w3\<lparr>previewURL := url, isRecording := False\<rparr>
      in snd (cleanupStreams w4))"

text \<open>
  What the browser answers to a call of \<open>startRecording\<close> once the screen is shared: the
  outcome of the microphone request (\<open>Inl\<close> the message of the rejection), whether the
  constructors of the audio context and of the recorder and the recorder's \<open>start\<close>
  throw, the stream of the destination node, and the clock when the timer starts.
\<close>

record host_answers =
  userMedia :: "string + stream"
  newAudioContext_error :: "string option"
  destinationStream :: stream
  newMediaRecorder_error :: "string option"
  recorderStart_error :: "string option"
  dateNow :: int

text \<open>
  The rest of the \<open>try\<close> block of \<open>startRecording\<close>, lines 95 to 139, which runs without
  suspension once both streams are there: the exception it leaves with, if any, and the
  world at that point. \<open>createMediaStreamSource\<close> throws on a stream without an audio
  track.
\<close>

definition after_acquisition ::
  "host_answers \<Rightarrow> stream \<Rightarrow> stream \<Rightarrow> world \<Rightarrow> string option \<times> world" where
  "after_acquisition h displayStream micStream w =
    (let w3 = emit A_newAudioContext w in
     case newAudioContext_error h of Some e \<Rightarrow> (Some e, w3) | None \<Rightarrow>
    (let audioCtx = handles w3;
         w4 = w3\<lparr>handles := Suc (handles w3)\<rparr>;
         w5 = emit (A_createMediaStreamSource SystemAudio) w4 in
     if audioTracks displayStream = [] then (Some ''InvalidStateError'', w5) else
     let w6 = emit (A_createMediaStreamSource MicAudio) w5 in
     if audioTracks micStream = [] then (Some ''InvalidStateError'', w6) else
     let w7 = emit A_createMediaStreamDestination w6;
         dest = destinationStream h;
         w8 = emit (A_connect SystemAudio) w7;
         w9 = emit (A_connect MicAudio) w8;
         combined = \<lparr>videoTracks = videoTracks displayStream, audioTracks = audioTracks dest\<rparr>;
         w10 = emit (A_newMediaStream (getTracks combined)) w9;
         mimeType = pickMimeType (isTypeSupported w10);
         opts = (if mimeType \<noteq> [] then Some mimeType else None);
         w11 = emit (A_newMediaRecorder opts) w10 in
     case newMediaRecorder_error h of Some e \<Rightarrow> (Some e, w11) | None \<Rightarrow>
    (let recorder = \<lparr>rec_state = Inactive, rec_options = opts, rec_mimeType = mimeType,
                      pending_stop = 0\<rparr>;
         w12 = w11\<lparr>chunksRef := []\<rparr>;
         w13 = (case videoTracks displayStream of
                  [] \<Rightarrow> w12
                | videoTrack # rest \<Rightarrow> emit (A_addEndedListener videoTrack) w12);
         w14 = w13\<lparr>mediaRecorderRef := Some recorder,
                    displayStreamRef := Some displayStream,
                    micStreamRef := Some micStream,
                    mixedStreamRef := Some combined,
                    audioCtxRef := Some audioCtx\<rparr>;
         w15 = emit A_recorderStart w14 in
     case recorderStart_error h of Some e \<Rightarrow> (Some e, w15) | None \<Rightarrow>
    (let w16 = w15\<lparr>mediaRecorderRef := Some (recorder\<lparr>rec_state := Recording\<rparr>)\<rparr>;
         w17 = w16\<lparr>isRecording := True\<rparr>
     in (None, startTimer (dateNow h) w17)))))"

text \<open>The \<open>catch\<close> block of \<open>startRecording\<close>, lines 140 to 146.\<close>

definition start_catch :: "string \<Rightarrow> world \<Rightarrow> world" where
  "start_catch err w =
     (let w4 = emit (A_consoleError err) w;
          w5 = w4\<lparr>error := or_default (Some err)
                  ''Failed to start recording. Use Chrome & allow permissions.''\<rparr>
      in case cleanupStreams w5 of
           (Some e, w6) \<Rightarrow> w6
         | (None, w6) \<Rightarrow> (stopTimer w6)\<lparr>isRecording := False\<rparr>)"

text \<open>
  \<open>startRecording\<close>, lines 78 to 147, is an async function: a call runs up to its first
  \<open>await\<close> and returns, and the browser resumes it when the awaited promise settles; in
  between, any other handler can run, a further call of \<open>startRecording\<close> among them.
  The model has the three pieces of a call. \<open>startRecording\<close> is the call itself, up to
  the request of line 88; \<open>isSupported\<close>, \<open>isRecording\<close> and \<open>previewURL\<close> are the values
  of the render the handler belongs to. \<open>startRecording_display\<close> resumes a call
  suspended at line 88 with the outcome of the request, up to the request of line 93.
  \<open>startRecording_mic\<close> resumes a call suspended at line 93, whose local
  \<open>displayStream\<close> is given, and runs it to its end. The guard of line 80 is not
  looked at again. \<open>awaitingDisplay\<close> counts the calls suspended at line 88, and
  \<open>awaitingMic\<close> holds the \<open>displayStream\<close> of each call suspended at line 93; a
  resumption for which no call is waiting does not happen.
\<close>

definition startRecording :: "world \<Rightarrow> world" where
  "startRecording w =
    (let w1 = w\<lparr>error := ''''\<rparr> in
     if \<not> isSupported w \<or> isRecording w then w1 else
     let w2 = (if previewURL w \<noteq> []
               then (revokeObjectURL (previewURL w) w1)\<lparr>previewURL := ''''\<rparr>
               else w1);
         w3 = emit A_getDisplayMedia w2
     in w3\<lparr>awaitingDisplay := Suc (awaitingDisplay w3)\<rparr>)"

definition startRecording_display :: "string + stream \<Rightarrow> world \<Rightarrow> world" where
  "startRecording_display answer w =
     (if awaitingDisplay w = 0 then w else
      let w1 = w\<lparr>awaitingDisplay := awaitingDisplay w - 1\<rparr> in
      case answer of
        Inl err \<Rightarrow> start_catch err w1
      | Inr displayStream \<Rightarrow>
          (let w2 = emit A_getUserMedia w1
           in w2\<lparr>awaitingMic := awaitingMic w2 @ [displayStream]\<rparr>))"

definition startRecording_mic :: "stream \<Rightarrow> host_answers \<Rightarrow> world \<Rightarrow> world" where
  "startRecording_mic displayStream h w =
     (if displayStream \<notin> set (awaitingMic w) then w else
      let w1 = w\<lparr>awaitingMic := remove1 displayStream (awaitingMic w)\<rparr> in
      case userMedia h of
        Inl err \<Rightarrow> start_catch err w1
      | Inr micStream \<Rightarrow>
          (case after_acquisition h displayStream micStream w1 of
             (None, w2) \<Rightarrow> w2
           | (Some err, w2) \<Rightarrow> start_catch err w2))"

text \<open>
  \<open>Date.prototype.toISOString\<close>: fields of fixed width, the year with four digits when
  it lies in 0 to 9999 and with a sign and six digits otherwise.
\<close>

fun decimal_field :: "nat \<Rightarrow> nat \<Rightarrow> string" where
  "decimal_field 0 n = []"
| "decimal_field (Suc width) n = decimal_field width (n div 10) @ [digit n]"

definition toISOString :: "date \<Rightarrow> string" where
  "toISOString d =
     (if 0 \<le> year d \<and> year d \<le> 9999 then decimal_field 4 (nat (year d))
      else (if year d < 0 then ''-'' else ''+'') @ decimal_field 6 (nat \<bar>year d\<bar>))
     @ ''-'' @ decimal_field 2 (month d) @ ''-'' @ decimal_field 2 (day d)
     @ ''T'' @ decimal_field 2 (hours d) @ '':'' @ decimal_field 2 (minutes d)
     @ '':'' @ decimal_field 2 (seconds d) @ ''.'' @ decimal_field 3 (milliseconds d) @ ''Z''"

text \<open>
  \<open>.replace(/[:.]/g, "-")\<close> replaces every colon and every full stop;
  \<open>.replace("T", "_")\<close>, with a string for its pattern, replaces the first \<open>T\<close> only;
  \<open>.slice(0, 19)\<close> keeps the first 19 characters.
\<close>

definition replace_colon_dot :: "string \<Rightarrow> string" where
  "replace_colon_dot s = map (\<lambda>c. if c = CHR '':'' \<or> c = CHR ''.'' then CHR ''-'' else c) s"

fun replace_first :: "char \<Rightarrow> char \<Rightarrow> string \<Rightarrow> string" where
  "replace_first a b [] = []"
| "replace_first a b (c # cs) = (if c = a then b # cs else c # replace_first a b cs)"

definition timestamp :: "date \<Rightarrow> string" where
  "timestamp d = take 19 (replace_first CHR ''T'' CHR ''_'' (replace_colon_dot (toISOString d)))"

text \<open>\<open>handleDownload\<close>, lines 173 to 185, with the Date that \<open>new Date()\<close> returns.\<close>

definition handleDownload :: "date \<Rightarrow> world \<Rightarrow> world" where
  "handleDownload d w =
    (if previewURL w = [] \<or> chunksRef w = [] then w else
     let mimeType = or_default (Some (pickMimeType (isTypeSupported w))) ''video/webm'';
         (b, w1) = newBlob (chunksRef w) mimeType w;
         ts = timestamp d;
         (url, w2) = createObjectURL b w1
     in emit (A_download (''recording_'' @ ts @ ''.webm'') url) w2)"

text \<open>
  The Download button is rendered, in the preview, when \<open>previewURL\<close> is not empty
  (lines 218 to 224).
\<close>

definition download_enabled :: "world \<Rightarrow> bool" where
  "download_enabled w = (previewURL w \<noteq> [])"

subsection \<open>Events\<close>

text \<open>
  What can happen to the mounted component: a click on Start, Stop or Download, the
  browser settling the screen request or the microphone request of a suspended call of
  \<open>startRecording\<close>, the shared video track ending by itself, an interval firing, the
  recorder delivering data or its queued \<open>stop\<close> event, and the component unmounting
  (the effect of lines 35 to 40, whose closure holds the empty \<open>previewURL\<close> of the first
  render). The callback of every interval is that of lines 52 to 59, which reads the
  refs; an interval that has been cleared does not fire, and a \<open>stop\<close> event is delivered
  only when one is queued.
\<close>

datatype event =
    Start
  | DisplayAnswer "string + stream"
  | MicAnswer stream host_answers
  | UserStop
  | TrackEnded
  | Tick int
  | DataAvailable "blob option"
  | StopEvent
  | Download date
  | Unmount

fun step :: "event \<Rightarrow> world \<Rightarrow> world" where
  "step Start w = startRecording w"
| "step (DisplayAnswer answer) w = startRecording_display answer w"
| "step (MicAnswer displayStream h) w = startRecording_mic displayStream h w"
| "step UserStop w = stopRecording w"
| "step TrackEnded w = stopRecording w"
| "step (Tick now) w = (if intervals w = [] then w else tick now w)"
| "step (DataAvailable d) w = ondataavailable d w"
| "step StopEvent w =
     (case mediaRecorderRef w of
        None \<Rightarrow> w
      | Some r \<Rightarrow>
          if pending_stop r = 0 then w
          else onstop (rec_mimeType r)
                 (w\<lparr>mediaRecorderRef := Some (r\<lparr>pending_stop := pending_stop r - 1\<rparr>)\<rparr>))"
| "step (Download d) w = handleDownload d w"
| "step Unmount w = stopRecording w"

definition run :: "event list \<Rightarrow> world \<Rightarrow> world" where
  "run es w = fold step es w"

text \<open>The component after mounting, the first effect (lines 27 to 33) having run.\<close>

definition mounted :: "bool \<Rightarrow> (string \<Rightarrow> bool) \<Rightarrow> bool \<Rightarrow> world" where
  "mounted supported types throws =
     \<lparr>isSupported = supported, isRecording = False, elapsedMs = 0, previewURL = '''',
      error = '''', mediaRecorderRef = None, chunksRef = [], displayStreamRef = None,
      micStreamRef = None, mixedStreamRef = None, audioCtxRef = None, tickRef = None,
      startTimeRef = 0, endedTracks = [], closedContexts = [], intervals = [],
      objectURLs = [], handles = 0, closeThrows = throws, isTypeSupported = types,
      awaitingDisplay = 0, awaitingMic = [], trace = []\<rparr>"

subsection \<open>Notions the properties are stated with\<close>

text \<open>The tracks \<open>cleanupStreams\<close> goes through, in its order.\<close>

definition streamTracks :: "stream option \<Rightarrow> nat list" where
  "streamTracks s = (case s of None \<Rightarrow> [] | Some st \<Rightarrow> getTracks st)"

definition cleanupTracks :: "world \<Rightarrow> nat list" where
  "cleanupTracks w = streamTracks (displayStreamRef w) @ streamTracks (micStreamRef w)
                       @ streamTracks (mixedStreamRef w)"

text \<open>
  How often the trace holds a run of \<open>cleanupStreams\<close>, a Blob being built, and a call of
  the recorder's \<open>stop\<close>.
\<close>

fun is_cleanup :: "action \<Rightarrow> bool" where
  "is_cleanup A_cleanupStreams = True"
| "is_cleanup a = False"

fun is_newBlob :: "action \<Rightarrow> bool" where
  "is_newBlob (A_newBlob n ty) = True"
| "is_newBlob a = False"

fun is_recorderStop :: "action \<Rightarrow> bool" where
  "is_recorderStop A_recorderStop = True"
| "is_recorderStop a = False"

definition cleanups :: "world \<Rightarrow> nat" where
  "cleanups w = length (filter is_cleanup (trace w))"

definition builds :: "world \<Rightarrow> nat" where
  "builds w = length (filter is_newBlob (trace w))"

definition stops :: "world \<Rightarrow> nat" where
  "stops w = length (filter is_recorderStop (trace w))"

text \<open>
  The phases of an attempt, read off the recorder: recording; stop requested (the
  recorder is inactive); completed (inactive and its \<open>stop\<close> event delivered).
\<close>

definition recording_phase :: "world \<Rightarrow> bool" where
  "recording_phase w =
     (case mediaRecorderRef w of
        None \<Rightarrow> False
      | Some r \<Rightarrow> rec_state r = Recording \<and> pending_stop r = 0)"

definition stop_requested :: "world \<Rightarrow> bool" where
  "stop_requested w =
     (case mediaRecorderRef w of None \<Rightarrow> False | Some r \<Rightarrow> rec_state r = Inactive)"

definition completed :: "world \<Rightarrow> bool" where
  "completed w =
     (case mediaRecorderRef w of
        None \<Rightarrow> False
      | Some r \<Rightarrow> rec_state r = Inactive \<and> pending_stop r = 0)"

text \<open>
  The events of one attempt: everything but the pieces of a call of \<open>startRecording\<close>,
  which belong to another attempt, and a click on Download, which builds a Blob of its
  own.
\<close>

fun attempt_event :: "event \<Rightarrow> bool" where
  "attempt_event Start = False"
| "attempt_event (DisplayAnswer answer) = False"
| "attempt_event (MicAnswer ds h) = False"
| "attempt_event (Download d) = False"
| "attempt_event e = True"

text \<open>
  The events that call \<open>stopRecording\<close> in a given world: the user's Stop, the shared
  track ending, the unmount, and a tick of the running timer at or after the maximum.
\<close>

fun fires_stop :: "event \<Rightarrow> world \<Rightarrow> bool" where
  "fires_stop UserStop w = True"
| "fires_stop TrackEnded w = True"
| "fires_stop Unmount w = True"
| "fires_stop (Tick now) w = (intervals w \<noteq> [] \<and> now - startTimeRef w \<ge> MAX_DURATION_MS)"
| "fires_stop e w = False"

text \<open>
  What the recorder and the counts look like during an attempt that began with \<open>c\<close>
  cleanups, \<open>b\<close> builds and \<open>s\<close> calls of \<open>stop\<close> in the trace.
\<close>

definition attempt_inv :: "nat \<Rightarrow> nat \<Rightarrow> nat \<Rightarrow> world \<Rightarrow> bool" where
  "attempt_inv c b s w =
     (case mediaRecorderRef w of
        None \<Rightarrow> False
      | Some r \<Rightarrow>
          if rec_state r \<noteq> Inactive
          then pending_stop r = 0 \<and> cleanups w = c \<and> builds w = b \<and> stops w = s
          else if pending_stop r = 0
          then cleanups w = Suc c \<and> builds w = Suc b \<and> stops w = Suc s
          else pending_stop r = 1 \<and> cleanups w = c \<and> builds w = b \<and> stops w = Suc s)"




text \<open>
  \<open>precedes a P xs\<close>: the list holds an element satisfying \<open>P\<close>, and \<open>a\<close> occurs before
  the first one.
\<close>

definition precedes :: "action \<Rightarrow> (action \<Rightarrow> bool) \<Rightarrow> action list \<Rightarrow> bool" where
  "precedes a P xs = (list_ex P xs \<and> a \<in> set (takeWhile (\<lambda>x. \<not> P x) xs))"

fun is_newMediaStream :: "action \<Rightarrow> bool" where
  "is_newMediaStream (A_newMediaStream ts) = True"
| "is_newMediaStream a = False"

fun is_newMediaRecorder :: "action \<Rightarrow> bool" where
  "is_newMediaRecorder (A_newMediaRecorder opts) = True"
| "is_newMediaRecorder a = False"

fun is_recorderStart :: "action \<Rightarrow> bool" where
  "is_recorderStart A_recorderStart = True"
| "is_recorderStart a = False"

text \<open>The trace a handler added to that of the world it started in.\<close>

definition added :: "world \<Rightarrow> world \<Rightarrow> action list" where
  "added w w' = drop (length (trace w)) (trace w')"

text \<open>
  A call of \<open>startRecording\<close> suspended at the microphone request that, resumed with
  the answers \<open>h\<close>, reaches the end of its \<open>try\<close> block: the request is granted and
  nothing after it throws.
\<close>

definition starts_recording :: "stream \<Rightarrow> host_answers \<Rightarrow> world \<Rightarrow> bool" where
  "starts_recording ds h w =
     (case userMedia h of
        Inl e \<Rightarrow> False
      | Inr ms \<Rightarrow> fst (after_acquisition h ds ms w) = None)"

text \<open>
  The listener \<open>startRecording\<close> registers for the end of the first video track of the
  shared stream, when there is one.
\<close>

definition listener :: "stream \<Rightarrow> action list" where
  "listener ds =
     (case videoTracks ds of [] \<Rightarrow> [] | videoTrack # rest \<Rightarrow> [A_addEndedListener videoTrack])"

text \<open>The data of the \<open>dataavailable\<close> events of a run, in their order.\<close>

fun emitted :: "event list \<Rightarrow> blob option list" where
  "emitted [] = []"
| "emitted (DataAvailable d # es) = d # emitted es"
| "emitted (e # es) = emitted es"

text \<open>The segments of size greater than zero among them.\<close>

definition non_empty_segments :: "blob option list \<Rightarrow> blob list" where
  "non_empty_segments ds = filter (\<lambda>b. 0 < blob_size b) (map the (filter (\<lambda>d. d \<noteq> None) ds))"

fun not_start :: "event \<Rightarrow> bool" where
  "not_start Start = False"
| "not_start (DisplayAnswer answer) = False"
| "not_start (MicAnswer ds h) = False"
| "not_start e = True"

text \<open>
  \<open>matches p s\<close>: the string has the shape of the pattern, in which \<open>#\<close> stands for a
  decimal digit and every other character for itself.
\<close>

fun matches :: "string \<Rightarrow> string \<Rightarrow> bool" where
  "matches [] [] = True"
| "matches (p # ps) (c # cs) =
     ((if p = CHR ''#'' then c \<in> set ''0123456789'' else c = p) \<and> matches ps cs)"
| "matches ps cs = False"

text \<open>The file name of the last download in the trace.\<close>

fun download_name :: "action list \<Rightarrow> string option" where
  "download_name [] = None"
| "download_name (A_download name url # as) =
     (case download_name as of None \<Rightarrow> Some name | Some later \<Rightarrow> Some later)"
| "download_name (a # as) = download_name as"

subsection \<open>Examples\<close>

text \<open>
  A browser that grants both requests: a shared tab with one video track and one audio
  track, a microphone, and the track of the destination node.
\<close>

definition example_display :: stream where
  "example_display = \<lparr>videoTracks = [1], audioTracks = [2]\<rparr>"

definition example_answers :: host_answers where
  "example_answers =
     \<lparr>userMedia = Inr \<lparr>videoTracks = [], audioTracks = [3]\<rparr>,
      newAudioContext_error = None,
      destinationStream = \<lparr>videoTracks = [], audioTracks = [4]\<rparr>,
      newMediaRecorder_error = None,
      recorderStart_error = None,
      dateNow = 1000\<rparr>"

definition webm_only :: "string \<Rightarrow> bool" where
  "webm_only c = (c = ''video/webm'')"

text \<open>The world before the microphone request of the first call is settled, and after.\<close>

definition example_acquiring :: world where
  "example_acquiring =
     run [Start, DisplayAnswer (Inr example_display)] (mounted True webm_only False)"

definition example_recording :: world where
  "example_recording = run [MicAnswer example_display example_answers] example_acquiring"

definition segment :: "nat \<Rightarrow> blob" where
  "segment n = \<lparr>blob_size = n, blob_type = ''video/webm''\<rparr>"

definition example_date :: date where
  "example_date = \<lparr>year = 2024, month = 3, day = 9, hours = 7, minutes = 5, seconds = 59,
                    milliseconds = 123\<rparr>"

definition example_date_later :: date where
  "example_date_later = \<lparr>year = 2024, month = 3, day = 9, hours = 7, minutes = 6, seconds = 0,
                          milliseconds = 4\<rparr>"

text \<open>An attempt that ended with no segment, and one that ended with one segment.\<close>

definition example_empty :: world where
  "example_empty = run [UserStop, StopEvent] example_recording"

definition example_done :: world where
  "example_done = run [DataAvailable (Some (segment 1000)), UserStop, StopEvent] example_recording"

text \<open>
  Two clicks on Start before the first screen request is settled, each call granted a
  shared tab and a microphone of its own; then a click on Stop and the delivery of the
  recorder's \<open>stop\<close> event.
\<close>

definition example_display_b :: stream where
  "example_display_b = \<lparr>videoTracks = [11], audioTracks = [12]\<rparr>"

definition example_answers_b :: host_answers where
  "example_answers_b =
     \<lparr>userMedia = Inr \<lparr>videoTracks = [], audioTracks = [13]\<rparr>,
      newAudioContext_error = None,
      destinationStream = \<lparr>videoTracks = [], audioTracks = [14]\<rparr>,
      newMediaRecorder_error = None,
      recorderStart_error = None,
      dateNow = 5000\<rparr>"

definition example_overlap :: world where
  "example_overlap =
     run [Start, Start, DisplayAnswer (Inr example_display),
          DisplayAnswer (Inr example_display_b),
          MicAnswer example_display example_answers,
          MicAnswer example_display_b example_answers_b]
       (mounted True webm_only False)"

definition example_overlap_stopped :: world where
  "example_overlap_stopped =
     run [UserStop, StopEvent, Unmount, TrackEnded, StopEvent] example_overlap"

section \<open>Properties\<close>

subsection \<open>What the handlers do to a world\<close>

lemma fold_track_stop:
  "fold track_stop ts w =
     w\<lparr>endedTracks := fold List.insert ts (endedTracks w), trace := trace w @ map A_trackStop ts\<rparr>"
  by (induction ts arbitrary: w) (simp_all add: track_stop_def emit_def)

lemma stopTracks_eq:
  "stopTracks s w =
     w\<lparr>endedTracks := fold List.insert (streamTracks s) (endedTracks w),
       trace := trace w @ map A_trackStop (streamTracks s)\<rparr>"
  by (cases s) (simp_all add: stopTracks_def streamTracks_def fold_track_stop)

lemma cleanupStreams_eq:
  "cleanupStreams w =
     (None,
      w\<lparr>displayStreamRef := None, micStreamRef := None, mixedStreamRef := None,
        audioCtxRef := None,
        endedTracks := fold List.insert (cleanupTracks w) (endedTracks w),
        closedContexts :=
          (case audioCtxRef w of
             None \<Rightarrow> closedContexts w
           | Some c \<Rightarrow> if closeThrows w then closedContexts w
                       else List.insert c (closedContexts w)),
        trace := trace w @ A_cleanupStreams # map A_trackStop (cleanupTracks w)
                   @ (case audioCtxRef w of None \<Rightarrow> [] | Some c \<Rightarrow> [A_audioContextClose c])\<rparr>)"
  by (simp add: cleanupStreams_def stopTracks_eq cleanupTracks_def emit_def Let_def
        audioContext_close_def split: option.splits)

lemma stopTimer_eq:
  "stopTimer w =
     (case tickRef w of
        None \<Rightarrow> w
      | Some i \<Rightarrow> if i = 0 then w
                  else w\<lparr>tickRef := None, intervals := filter (\<lambda>x. fst x \<noteq> i) (intervals w),
                         trace := trace w @ [A_clearInterval i]\<rparr>)"
  by (simp add: stopTimer_def clearInterval_def emit_def split: option.splits)

lemma example_acquiring_eq:
  "example_acquiring =
     \<lparr>isSupported = True, isRecording = False, elapsedMs = 0, previewURL = '''', error = '''',
      mediaRecorderRef = None, chunksRef = [], displayStreamRef = None,
      micStreamRef = None, mixedStreamRef = None, audioCtxRef = None, tickRef = None,
      startTimeRef = 0, endedTracks = [], closedContexts = [], intervals = [],
      objectURLs = [], handles = 0, closeThrows = False, isTypeSupported = webm_only,
      awaitingDisplay = 0, awaitingMic = [\<lparr>videoTracks = [1], audioTracks = [2]\<rparr>],
      trace = [A_getDisplayMedia, A_getUserMedia]\<rparr>"
  by (simp add: example_acquiring_def run_def mounted_def startRecording_def
        startRecording_display_def example_display_def Let_def emit_def)

lemma example_recording_eq:
  "example_recording =
     \<lparr>isSupported = True, isRecording = True, elapsedMs = 0, previewURL = '''', error = '''',
      mediaRecorderRef = Some \<lparr>rec_state = Recording, rec_options = Some ''video/webm'',
                                rec_mimeType = ''video/webm'', pending_stop = 0\<rparr>,
      chunksRef = [],
      displayStreamRef = Some \<lparr>videoTracks = [1], audioTracks = [2]\<rparr>,
      micStreamRef = Some \<lparr>videoTracks = [], audioTracks = [3]\<rparr>,
      mixedStreamRef = Some \<lparr>videoTracks = [1], audioTracks = [4]\<rparr>,
      audioCtxRef = Some 0, tickRef = Some 2, startTimeRef = 1000,
      endedTracks = [], closedContexts = [], intervals = [(2, 250)], objectURLs = [],
      handles = 2, closeThrows = False, isTypeSupported = webm_only,
      awaitingDisplay = 0, awaitingMic = [],
      trace = [A_getDisplayMedia, A_getUserMedia, A_newAudioContext,
               A_createMediaStreamSource SystemAudio, A_createMediaStreamSource MicAudio,
               A_createMediaStreamDestination, A_connect SystemAudio, A_connect MicAudio,
               A_newMediaStream [1, 4], A_newMediaRecorder (Some ''video/webm''),
               A_addEndedListener 1, A_recorderStart, A_setInterval 2 250]\<rparr>"
  by (simp add: example_recording_def run_def example_acquiring_eq example_answers_def
        example_display_def startRecording_mic_def after_acquisition_def Let_def emit_def
        pickMimeType_def cand_def webm_only_def startTimer_def setInterval_def getTracks_def)

subsection \<open>Segments\<close>

lemma stopRecording_chunks: "chunksRef (stopRecording w) = chunksRef w"
  by (simp add: stopRecording_def stopTimer_eq emit_def split: option.splits)

lemma tick_chunks: "chunksRef (tick now w) = chunksRef w"
  by (simp add: tick_def Let_def stopRecording_chunks)

lemma onstop_chunks: "chunksRef (onstop m w) = chunksRef w"
  by (simp add: onstop_def Let_def newBlob_def createObjectURL_def cleanupStreams_eq emit_def
        stopTimer_eq split: option.splits)

lemma handleDownload_chunks: "chunksRef (handleDownload d w) = chunksRef w"
  by (simp add: handleDownload_def Let_def newBlob_def createObjectURL_def emit_def)

lemma ondataavailable_chunks:
  "chunksRef (ondataavailable d w) = chunksRef w @ non_empty_segments [d]"
  by (cases d) (simp_all add: ondataavailable_def non_empty_segments_def)

lemma non_empty_segments_append:
  "non_empty_segments (xs @ ys) = non_empty_segments xs @ non_empty_segments ys"
  by (simp add: non_empty_segments_def)

lemma emitted_Cons: "emitted (e # es) = emitted [e] @ emitted es"
  by (cases e) simp_all

lemma step_chunks:
  "not_start e \<Longrightarrow> chunksRef (step e w) = chunksRef w @ non_empty_segments (emitted [e])"
  by (cases e)
     (simp_all add: stopRecording_chunks tick_chunks onstop_chunks handleDownload_chunks
        ondataavailable_chunks non_empty_segments_def split: option.splits)

text \<open>
  C6. Whatever happens during an attempt (any events but those of a new call of
  \<open>startRecording\<close>, which empties the buffer when it constructs its recorder), the buffered
  segments at the end are those buffered at the beginning followed by exactly the
  segments of size greater than zero that the recorder delivered, in the order of their
  arrival; a null or zero-size segment is never appended.
\<close>

theorem segments_retained:
  "list_all not_start es \<Longrightarrow>
   chunksRef (run es w) = chunksRef w @ non_empty_segments (emitted es)"
proof (induction es arbitrary: w)
  case Nil
  show ?case by (simp add: run_def non_empty_segments_def)
next
  case (Cons e es)
  have "chunksRef (run (e # es) w) = chunksRef (run es (step e w))"
    by (simp add: run_def)
  also have "\<dots> = chunksRef (step e w) @ non_empty_segments (emitted es)"
    using Cons by simp
  also have "\<dots> = chunksRef w @ non_empty_segments (emitted [e]) @ non_empty_segments (emitted es)"
    using Cons.prems by (simp add: step_chunks)
  finally show ?case
    by (simp add: emitted_Cons [of e es] non_empty_segments_append)
qed

theorem segments_retained_witness:
  "list_all not_start
     [DataAvailable (Some (segment 1000)), Tick 1250, DataAvailable (Some (segment 0)),
      DataAvailable None, DataAvailable (Some (segment 2000)), UserStop, StopEvent]
   \<and> chunksRef
       (run [DataAvailable (Some (segment 1000)), Tick 1250, DataAvailable (Some (segment 0)),
             DataAvailable None, DataAvailable (Some (segment 2000)), UserStop, StopEvent]
          example_recording)
     = [segment 1000, segment 2000]"
proof -
  have h: "list_all not_start
     [DataAvailable (Some (segment 1000)), Tick 1250, DataAvailable (Some (segment 0)),
      DataAvailable None, DataAvailable (Some (segment 2000)), UserStop, StopEvent]"
    by simp
  show ?thesis
    using h segments_retained [OF h, of example_recording]
    by (simp add: non_empty_segments_def segment_def example_recording_eq)
qed

subsection \<open>Cleanup\<close>

text \<open>
  C7. \<open>cleanupStreams\<close> never leaves with an exception, in any world: whichever of the
  stream references are null, and whether or not closing the audio context throws.
  Afterwards the four references (display stream, microphone stream, mixed stream,
  audio context) are null, and a second call does nothing but run: it stops no track
  and closes no context.
\<close>

theorem cleanup_never_raises:
  "fst (cleanupStreams w) = None
   \<and> displayStreamRef (snd (cleanupStreams w)) = None
   \<and> micStreamRef (snd (cleanupStreams w)) = None
   \<and> mixedStreamRef (snd (cleanupStreams w)) = None
   \<and> audioCtxRef (snd (cleanupStreams w)) = None
   \<and> cleanupStreams (snd (cleanupStreams w))
       = (None, emit A_cleanupStreams (snd (cleanupStreams w)))"
  by (simp add: cleanupStreams_eq cleanupTracks_def streamTracks_def emit_def)

subsection \<open>Start while recording\<close>



text \<open>
  C10. Start invoked while a recording is active, or while the environment is
  unsupported, leaves the error message empty, whatever it was: the message is reset
  before the guard returns.
\<close>

theorem start_guard_clears_error:
  "\<not> isSupported w \<or> isRecording w \<Longrightarrow> error (startRecording w) = ''''"
  by (auto simp add: startRecording_def)

theorem start_guard_clears_error_witness:
  "isRecording (example_recording\<lparr>error := ''Permission denied''\<rparr>)
   \<and> error (example_recording\<lparr>error := ''Permission denied''\<rparr>) \<noteq> ''''
   \<and> error (startRecording (example_recording\<lparr>error := ''Permission denied''\<rparr>)) = ''''"
proof -
  have h: "\<not> isSupported (example_recording\<lparr>error := ''Permission denied''\<rparr>)
      \<or> isRecording (example_recording\<lparr>error := ''Permission denied''\<rparr>)"
    by (simp add: example_recording_eq)
  show ?thesis
    using start_guard_clears_error [OF h]
    by (simp add: example_recording_eq)
qed

subsection \<open>Stopping\<close>

lemma filter_trackStop [simp]:
  "filter is_cleanup (map A_trackStop ts) = []"
  "filter is_newBlob (map A_trackStop ts) = []"
  "filter is_recorderStop (map A_trackStop ts) = []"
  by (induction ts) simp_all

lemma stopTimer_counts [simp]:
  "cleanups (stopTimer w) = cleanups w"
  "builds (stopTimer w) = builds w"
  "stops (stopTimer w) = stops w"
  "mediaRecorderRef (stopTimer w) = mediaRecorderRef w"
  by (simp_all add: stopTimer_eq cleanups_def builds_def stops_def split: option.splits)

lemma stopRecording_recorder:
  "mediaRecorderRef (stopRecording w) =
     (case mediaRecorderRef w of
        None \<Rightarrow> None
      | Some r \<Rightarrow> if rec_state r \<noteq> Inactive then Some (recorder_stop r) else Some r)"
  by (simp add: stopRecording_def emit_def split: option.splits)

lemma stopRecording_counts:
  "cleanups (stopRecording w) = cleanups w"
  "builds (stopRecording w) = builds w"
  "stops (stopRecording w) =
     (case mediaRecorderRef w of
        None \<Rightarrow> stops w
      | Some r \<Rightarrow> if rec_state r \<noteq> Inactive then Suc (stops w) else stops w)"
  by (simp_all add: stopRecording_def split: option.splits)
     (simp_all add: emit_def cleanups_def builds_def stops_def)

lemma onstop_recorder: "mediaRecorderRef (onstop m w) = mediaRecorderRef w"
  by (simp add: onstop_def Let_def newBlob_def createObjectURL_def cleanupStreams_eq emit_def
        stopTimer_eq split: option.splits)

lemma onstop_counts:
  "cleanups (onstop m w) = Suc (cleanups w)"
  "builds (onstop m w) = Suc (builds w)"
  "stops (onstop m w) = stops w"
  by (simp_all add: onstop_def Let_def newBlob_def createObjectURL_def cleanupStreams_eq emit_def
        stopTimer_eq cleanups_def builds_def stops_def split: option.splits)

lemma counts_pending [simp]:
  "cleanups (w\<lparr>mediaRecorderRef := x\<rparr>) = cleanups w"
  "builds (w\<lparr>mediaRecorderRef := x\<rparr>) = builds w"
  "stops (w\<lparr>mediaRecorderRef := x\<rparr>) = stops w"
  "cleanups (w\<lparr>elapsedMs := ms\<rparr>) = cleanups w"
  "builds (w\<lparr>elapsedMs := ms\<rparr>) = builds w"
  "stops (w\<lparr>elapsedMs := ms\<rparr>) = stops w"
  "cleanups (w\<lparr>chunksRef := cs\<rparr>) = cleanups w"
  "builds (w\<lparr>chunksRef := cs\<rparr>) = builds w"
  "stops (w\<lparr>chunksRef := cs\<rparr>) = stops w"
  by (simp_all add: cleanups_def builds_def stops_def)

lemma attempt_inv_stopRecording:
  "attempt_inv c b s w \<Longrightarrow> attempt_inv c b s (stopRecording w)"
  by (auto simp add: attempt_inv_def stopRecording_recorder stopRecording_counts recorder_stop_def
        split: option.splits if_splits)

lemma attempt_inv_tick:
  "attempt_inv c b s w \<Longrightarrow> attempt_inv c b s (tick now w)"
proof -
  assume a: "attempt_inv c b s w"
  have "attempt_inv c b s (w\<lparr>elapsedMs := now - startTimeRef w\<rparr>)"
    using a by (auto simp add: attempt_inv_def split: option.splits if_splits)
  then show ?thesis
    by (simp add: tick_def Let_def attempt_inv_stopRecording)
qed

lemma attempt_inv_data:
  "attempt_inv c b s w \<Longrightarrow> attempt_inv c b s (ondataavailable d w)"
  by (cases d)
     (auto simp add: ondataavailable_def attempt_inv_def split: option.splits if_splits)

lemma attempt_inv_stopEvent:
  "attempt_inv c b s w \<Longrightarrow> attempt_inv c b s (step StopEvent w)"
  by (auto simp add: attempt_inv_def onstop_recorder onstop_counts
        split: option.splits if_splits)

lemma attempt_inv_step:
  "attempt_inv c b s w \<Longrightarrow> attempt_event e \<Longrightarrow> attempt_inv c b s (step e w)"
  by (cases e)
     (simp_all add: attempt_inv_stopRecording attempt_inv_tick attempt_inv_data
        attempt_inv_stopEvent del: step.simps(8))

lemma attempt_inv_run:
  "attempt_inv c b s w \<Longrightarrow> list_all attempt_event es \<Longrightarrow> attempt_inv c b s (run es w)"
  by (induction es arbitrary: w) (simp_all add: run_def attempt_inv_step)


lemma run_append: "run (xs @ ys) w = run ys (run xs w)"
  by (simp add: run_def)

lemma run_Cons: "run (e # es) w = run es (step e w)"
  by (simp add: run_def)

lemma stop_requested_stopRecording: "mediaRecorderRef w \<noteq> None \<Longrightarrow> stop_requested (stopRecording w)"
  by (auto simp add: stop_requested_def stopRecording_recorder recorder_stop_def split: option.splits)

lemma fires_stop_requests:
  "attempt_inv c b s w \<Longrightarrow> fires_stop t w \<Longrightarrow> stop_requested (step t w)"
proof -
  assume inv: "attempt_inv c b s w" and f: "fires_stop t w"
  from inv have r: "mediaRecorderRef w \<noteq> None"
    by (auto simp add: attempt_inv_def split: option.splits)
  show ?thesis
  proof (cases t)
    case (Tick now)
    with f have "step t w = stopRecording (w\<lparr>elapsedMs := now - startTimeRef w\<rparr>)"
      by (simp add: tick_def Let_def)
    with r show ?thesis by (simp add: stop_requested_stopRecording)
  qed (use f r in \<open>simp_all add: stop_requested_stopRecording\<close>)
qed

lemma stop_requested_step:
  "stop_requested w \<Longrightarrow> attempt_event e \<Longrightarrow> stop_requested (step e w)"
proof (cases e)
  case (Tick now)
  assume "stop_requested w"
  then show ?thesis using Tick
    by (auto simp add: stop_requested_def tick_def Let_def stopRecording_recorder split: option.splits)
next
  case (DataAvailable d)
  assume "stop_requested w"
  then show ?thesis using DataAvailable
    by (cases d) (auto simp add: stop_requested_def ondataavailable_def split: option.splits)
next
  case StopEvent
  assume "stop_requested w"
  then show ?thesis using StopEvent
    by (auto simp add: stop_requested_def onstop_recorder split: option.splits)
qed (auto simp add: stop_requested_def stopRecording_recorder split: option.splits)

lemma stop_requested_run:
  "stop_requested w \<Longrightarrow> list_all attempt_event es \<Longrightarrow> stop_requested (run es w)"
  by (induction es arbitrary: w) (simp_all add: run_def stop_requested_step)

lemma stopEvent_completes:
  "attempt_inv c b s w \<Longrightarrow> stop_requested w \<Longrightarrow> completed (step StopEvent w)"
  by (auto simp add: attempt_inv_def stop_requested_def completed_def onstop_recorder
        split: option.splits if_splits)

lemma completed_step:
  "completed w \<Longrightarrow> attempt_event e \<Longrightarrow> completed (step e w)"
proof (cases e)
  case (Tick now)
  assume "completed w"
  then show ?thesis using Tick
    by (auto simp add: completed_def tick_def Let_def stopRecording_recorder split: option.splits)
next
  case (DataAvailable d)
  assume "completed w"
  then show ?thesis using DataAvailable
    by (cases d) (auto simp add: completed_def ondataavailable_def split: option.splits)
next
  case StopEvent
  assume "completed w"
  then show ?thesis using StopEvent
    by (auto simp add: completed_def split: option.splits)
qed (auto simp add: completed_def stopRecording_recorder split: option.splits)

lemma completed_run:
  "completed w \<Longrightarrow> list_all attempt_event es \<Longrightarrow> completed (run es w)"
  by (induction es arbitrary: w) (simp_all add: run_def completed_step)

lemma trigger_then_stop_event_completes:
  assumes inv: "attempt_inv c b s w"
    and evs: "list_all attempt_event (pre @ t # mid @ StopEvent # post)"
    and f: "fires_stop t (run pre w)"
  shows "completed (run (pre @ t # mid @ StopEvent # post) w)"
proof -
  let ?w1 = "run pre w"
  let ?w2 = "step t ?w1"
  let ?w3 = "run mid ?w2"
  let ?w4 = "step StopEvent ?w3"
  from evs have p: "list_all attempt_event pre" and m: "list_all attempt_event mid"
    and q: "list_all attempt_event post" and at: "attempt_event t"
    by simp_all
  have i1: "attempt_inv c b s ?w1" using inv p by (rule attempt_inv_run)
  have r2: "stop_requested ?w2" using i1 f by (rule fires_stop_requests)
  have i2: "attempt_inv c b s ?w2" using i1 at by (rule attempt_inv_step)
  have r3: "stop_requested ?w3" using r2 m by (rule stop_requested_run)
  have i3: "attempt_inv c b s ?w3" using i2 m by (rule attempt_inv_run)
  have c4: "completed ?w4" using i3 r3 by (rule stopEvent_completes)
  have "completed (run post ?w4)" using c4 q by (rule completed_run)
  then show ?thesis by (simp add: run_append run_Cons)
qed

lemma attempt_inv_counts:
  "attempt_inv c b s w \<Longrightarrow>
     cleanups w = c + (if completed w then 1 else 0)
   \<and> builds w = b + (if completed w then 1 else 0)
   \<and> stops w = s + (if stop_requested w then 1 else 0)"
  by (auto simp add: attempt_inv_def completed_def stop_requested_def split: option.splits if_splits)

lemma recording_phase_inv:
  "recording_phase w \<Longrightarrow> attempt_inv (cleanups w) (builds w) (stops w) w"
  by (auto simp add: recording_phase_def attempt_inv_def split: option.splits)

lemma cleanups_only_at_stop_event:
  "attempt_event e \<Longrightarrow> e \<noteq> StopEvent \<Longrightarrow> cleanups (step e w) = cleanups w"
proof (cases e)
  case (Tick now)
  then show ?thesis by (simp add: tick_def Let_def stopRecording_counts)
next
  case (DataAvailable d)
  then show ?thesis by (cases d) (simp_all add: ondataavailable_def)
qed (simp_all add: stopRecording_counts)

text \<open>
  With one attempt at a time, stopping is idempotent. From a world in which the
  recorder records, over any run of the events of one attempt (clicks on Stop, the shared track ending, ticks of the timer below or beyond
  the maximum, the unmount, data and \<open>stop\<close> events of the recorder, in any number
  and order): \<open>cleanupStreams\<close> has run exactly once and exactly one Blob has been
  built if the attempt is completed, and neither has happened otherwise; the recorder's
  \<open>stop\<close> has been called exactly once if the recorder is inactive, and not otherwise.
  The attempt is completed as soon as an event that calls \<open>stopRecording\<close> is followed by
  the delivery of the recorder's \<open>stop\<close> event, whatever happens before, between and
  after; and no event but that delivery runs \<open>cleanupStreams\<close>.
\<close>

theorem stop_is_idempotent:
  assumes "recording_phase w" and "list_all attempt_event es"
  shows "cleanups (run es w) = cleanups w + (if completed (run es w) then 1 else 0)
       \<and> builds (run es w) = builds w + (if completed (run es w) then 1 else 0)
       \<and> stops (run es w) = stops w + (if stop_requested (run es w) then 1 else 0)
       \<and> (\<forall>pre t mid post. es = pre @ t # mid @ StopEvent # post \<and> fires_stop t (run pre w)
             \<longrightarrow> completed (run es w))
       \<and> (\<forall>e v. attempt_event e \<and> e \<noteq> StopEvent \<longrightarrow> cleanups (step e v) = cleanups v)"
proof -
  have inv: "attempt_inv (cleanups w) (builds w) (stops w) w"
    using assms(1) by (rule recording_phase_inv)
  then have "attempt_inv (cleanups w) (builds w) (stops w) (run es w)"
    using assms(2) by (rule attempt_inv_run)
  then have counts:
    "cleanups (run es w) = cleanups w + (if completed (run es w) then 1 else 0)
     \<and> builds (run es w) = builds w + (if completed (run es w) then 1 else 0)
     \<and> stops (run es w) = stops w + (if stop_requested (run es w) then 1 else 0)"
    by (rule attempt_inv_counts)
  have reach: "\<forall>pre t mid post. es = pre @ t # mid @ StopEvent # post \<and> fires_stop t (run pre w)
             \<longrightarrow> completed (run es w)"
    using inv assms(2) trigger_then_stop_event_completes by blast
  show ?thesis
    using counts reach cleanups_only_at_stop_event by blast
qed

theorem stop_is_idempotent_example:
  "recording_phase example_recording
   \<and> list_all attempt_event
       [Tick 1250, Tick 181000, UserStop, TrackEnded, StopEvent, UserStop, StopEvent, Unmount]
   \<and> cleanups (run [Tick 1250, Tick 181000, UserStop, TrackEnded, StopEvent, UserStop,
                       StopEvent, Unmount] example_recording) = 1
   \<and> builds (run [Tick 1250, Tick 181000, UserStop, TrackEnded, StopEvent, UserStop,
                     StopEvent, Unmount] example_recording) = 1
   \<and> stops (run [Tick 1250, Tick 181000, UserStop, TrackEnded, StopEvent, UserStop,
                    StopEvent, Unmount] example_recording) = 1"
proof -
  let ?es = "[Tick 1250, Tick 181000, UserStop, TrackEnded, StopEvent, UserStop, StopEvent, Unmount]"
  have h1: "recording_phase example_recording"
    by (simp add: recording_phase_def example_recording_eq)
  have h2: "list_all attempt_event ?es"
    by simp
  have z: "cleanups example_recording = 0" "builds example_recording = 0"
    "stops example_recording = 0"
    by (simp_all add: cleanups_def builds_def stops_def example_recording_eq)
  note t = stop_is_idempotent [OF h1 h2]
  have f: "fires_stop UserStop (run [Tick 1250, Tick 181000] example_recording)"
    by simp
  have d: "?es = [Tick 1250, Tick 181000] @ UserStop # [TrackEnded] @ StopEvent # [UserStop, StopEvent, Unmount]"
    by simp
  from t d f have c: "completed (run ?es example_recording)"
    by blast
  then have "stop_requested (run ?es example_recording)"
    by (simp add: completed_def stop_requested_def split: option.splits)
  with t c z h1 h2 show ?thesis
    by simp
qed


subsection \<open>The timer\<close>

lemma stopRecording_timer:
  "startTimeRef (stopRecording w) = startTimeRef w"
  "elapsedMs (stopRecording w) = elapsedMs w"
  "tickRef (stopRecording w) = (case tickRef w of None \<Rightarrow> None | Some i \<Rightarrow> if i = 0 then Some i else None)"
  "intervals (stopRecording w) =
     (case tickRef w of None \<Rightarrow> intervals w
      | Some i \<Rightarrow> if i = 0 then intervals w else filter (\<lambda>x. fst x \<noteq> i) (intervals w))"
  by (simp_all add: stopRecording_def stopTimer_eq emit_def split: option.splits)












lemma after_acquisition_None:
  assumes "fst (after_acquisition h ds ms v) = None"
  shows "newAudioContext_error h = None \<and> audioTracks ds \<noteq> [] \<and> audioTracks ms \<noteq> []
         \<and> newMediaRecorder_error h = None \<and> recorderStart_error h = None"
proof -
  have 3: "newAudioContext_error h = None"
    using assms
    by (cases "newAudioContext_error h") (simp_all add: after_acquisition_def Let_def)
  have 4: "audioTracks ds \<noteq> []"
  proof
    assume "audioTracks ds = []"
    with assms 3 show False by (simp add: after_acquisition_def Let_def)
  qed
  have 5: "audioTracks ms \<noteq> []"
  proof
    assume "audioTracks ms = []"
    with assms 3 4 show False by (simp add: after_acquisition_def Let_def)
  qed
  have 6: "newMediaRecorder_error h = None"
    using assms 3 4 5
    by (cases "newMediaRecorder_error h") (simp_all add: after_acquisition_def Let_def)
  have 7: "recorderStart_error h = None"
    using assms 3 4 5 6
    by (cases "recorderStart_error h") (simp_all add: after_acquisition_def Let_def)
  from 3 4 5 6 7 show ?thesis by blast
qed

lemma after_acquisition_ok:
  assumes "newAudioContext_error h = None \<and> audioTracks ds \<noteq> [] \<and> audioTracks ms \<noteq> []
         \<and> newMediaRecorder_error h = None \<and> recorderStart_error h = None"
  shows "after_acquisition h ds ms v =
    (None,
     v\<lparr>isRecording := True, elapsedMs := 0,
       mediaRecorderRef :=
         Some \<lparr>rec_state = Recording,
               rec_options = (if pickMimeType (isTypeSupported v) \<noteq> []
                              then Some (pickMimeType (isTypeSupported v)) else None),
               rec_mimeType = pickMimeType (isTypeSupported v), pending_stop = 0\<rparr>,
       chunksRef := [],
       displayStreamRef := Some ds, micStreamRef := Some ms,
       mixedStreamRef := Some \<lparr>videoTracks = videoTracks ds,
                                 audioTracks = audioTracks (destinationStream h)\<rparr>,
       audioCtxRef := Some (handles v),
       tickRef := Some (Suc (Suc (handles v))),
       startTimeRef := dateNow h,
       intervals := (Suc (Suc (handles v)), 250) # intervals v,
       handles := Suc (Suc (handles v)),
       trace := trace v @ [A_newAudioContext,
             A_createMediaStreamSource SystemAudio, A_createMediaStreamSource MicAudio,
             A_createMediaStreamDestination, A_connect SystemAudio, A_connect MicAudio,
             A_newMediaStream (videoTracks ds @ audioTracks (destinationStream h)),
             A_newMediaRecorder
               (if pickMimeType (isTypeSupported v) \<noteq> []
                then Some (pickMimeType (isTypeSupported v)) else None)]
           @ listener ds @ [A_recorderStart, A_setInterval (Suc (Suc (handles v))) 250]\<rparr>)"
proof (cases "videoTracks ds")
  case Nil
  with assms show ?thesis
    unfolding after_acquisition_def Let_def
    by (simp add: startTimer_def setInterval_def emit_def getTracks_def listener_def)
next
  case (Cons t ts)
  with assms show ?thesis
    unfolding after_acquisition_def Let_def
    by (simp add: startTimer_def setInterval_def emit_def getTracks_def listener_def)
qed






subsection \<open>The order of a successful start\<close>

lemma after_acquisition_any_world:
  "fst (after_acquisition h ds ms v) = None \<Longrightarrow> fst (after_acquisition h ds ms v') = None"
  by (simp add: after_acquisition_ok [OF after_acquisition_None])

lemma starts_recording_mic:
  assumes "ds \<in> set (awaitingMic w)" and "starts_recording ds h w"
  shows "\<exists>ms. userMedia h = Inr ms
           \<and> fst (after_acquisition h ds ms w) = None
           \<and> startRecording_mic ds h w =
               snd (after_acquisition h ds ms (w\<lparr>awaitingMic := remove1 ds (awaitingMic w)\<rparr>))"
proof (cases "userMedia h")
  case (Inl e)
  with assms(2) show ?thesis by (simp add: starts_recording_def)
next
  case (Inr ms)
  with assms(2) have s: "fst (after_acquisition h ds ms w) = None"
    by (simp add: starts_recording_def)
  note ok = after_acquisition_ok [OF after_acquisition_None [OF s]]
  have "startRecording_mic ds h w =
          snd (after_acquisition h ds ms (w\<lparr>awaitingMic := remove1 ds (awaitingMic w)\<rparr>))"
    using assms(1) Inr by (simp add: startRecording_mic_def Let_def ok)
  with Inr s show ?thesis by blast
qed

lemma recording_flag_starts_recording:
  assumes "ds \<in> set (awaitingMic w)" and "isRecording (startRecording_mic ds h w)"
    and "\<not> isRecording w"
  shows "starts_recording ds h w"
proof (cases "userMedia h")
  case (Inl e)
  with assms(1) have "\<not> isRecording (startRecording_mic ds h w)"
    by (simp add: startRecording_mic_def start_catch_def cleanupStreams_eq Let_def)
  with assms(2) show ?thesis by simp
next
  case (Inr ms)
  show ?thesis
  proof (cases "after_acquisition h ds ms (w\<lparr>awaitingMic := remove1 ds (awaitingMic w)\<rparr>)")
    case (Pair x w2)
    show ?thesis
    proof (cases x)
      case None
      with Pair have "fst (after_acquisition h ds ms
                        (w\<lparr>awaitingMic := remove1 ds (awaitingMic w)\<rparr>)) = None"
        by simp
      then have "fst (after_acquisition h ds ms w) = None"
        by (rule after_acquisition_any_world)
      with Inr show ?thesis by (simp add: starts_recording_def)
    next
      case (Some err)
      with Pair Inr assms(1) have "\<not> isRecording (startRecording_mic ds h w)"
        by (simp add: startRecording_mic_def start_catch_def cleanupStreams_eq Let_def)
      with assms(2) show ?thesis by simp
    qed
  qed
qed

lemma startRecording_mic_added:
  assumes "ds \<in> set (awaitingMic w)" and "starts_recording ds h w"
  shows "added w (startRecording_mic ds h w) =
     [A_newAudioContext,
      A_createMediaStreamSource SystemAudio, A_createMediaStreamSource MicAudio,
      A_createMediaStreamDestination, A_connect SystemAudio, A_connect MicAudio,
      A_newMediaStream (videoTracks ds @ audioTracks (destinationStream h)),
      A_newMediaRecorder
        (if pickMimeType (isTypeSupported w) \<noteq> []
         then Some (pickMimeType (isTypeSupported w)) else None)]
     @ listener ds @ [A_recorderStart, A_setInterval (Suc (Suc (handles w))) 250]"
proof -
  from starts_recording_mic [OF assms] obtain ms where
    s: "fst (after_acquisition h ds ms w) = None"
    and e: "startRecording_mic ds h w =
               snd (after_acquisition h ds ms (w\<lparr>awaitingMic := remove1 ds (awaitingMic w)\<rparr>))"
    by blast
  show ?thesis
    by (simp add: e after_acquisition_ok [OF after_acquisition_None [OF s]] added_def)
qed

lemma listener_plain:
  "\<not> list_ex is_recorderStart (listener ds)"
  by (simp add: listener_def split: list.splits)

lemma precedes_in_prefix:
  "a \<in> set pre \<Longrightarrow> \<not> list_ex P pre \<Longrightarrow> list_ex P post \<Longrightarrow> precedes a P (pre @ post)"
proof -
  assume a: "a \<in> set pre" and n: "\<not> list_ex P pre" and p: "list_ex P post"
  from n have "takeWhile (\<lambda>x. \<not> P x) (pre @ post) = pre @ takeWhile (\<lambda>x. \<not> P x) post"
    by (simp add: list_ex_iff takeWhile_append2)
  with a p show ?thesis
    by (auto simp add: precedes_def list_ex_iff)
qed

text \<open>
  C8. In every call of \<open>startRecording\<close> that starts a recording, whatever the world it
  is resumed in, the system-audio source and the microphone source are each connected
  to the destination node before the combined stream is constructed, before the
  recorder is constructed and before the recorder is started; so no recording starts
  with only one of the two connected. A resumption after which the recording flag is
  set, from a world in which it was not, is such a call.
\<close>

theorem audio_sources_connected_first:
  assumes "ds \<in> set (awaitingMic w)"
    and "starts_recording ds h w \<or> (isRecording (startRecording_mic ds h w) \<and> \<not> isRecording w)"
  shows "precedes (A_connect SystemAudio) is_newMediaStream (added w (startRecording_mic ds h w))
       \<and> precedes (A_connect MicAudio) is_newMediaStream (added w (startRecording_mic ds h w))
       \<and> precedes (A_connect SystemAudio) is_newMediaRecorder (added w (startRecording_mic ds h w))
       \<and> precedes (A_connect MicAudio) is_newMediaRecorder (added w (startRecording_mic ds h w))
       \<and> precedes (A_connect SystemAudio) is_recorderStart (added w (startRecording_mic ds h w))
       \<and> precedes (A_connect MicAudio) is_recorderStart (added w (startRecording_mic ds h w))"
proof -
  have sr: "starts_recording ds h w"
    using assms recording_flag_starts_recording by blast
  have t: "added w (startRecording_mic ds h w) =
     [A_newAudioContext,
        A_createMediaStreamSource SystemAudio, A_createMediaStreamSource MicAudio,
        A_createMediaStreamDestination, A_connect SystemAudio, A_connect MicAudio]
     @ ([A_newMediaStream (videoTracks ds @ audioTracks (destinationStream h)),
        A_newMediaRecorder
          (if pickMimeType (isTypeSupported w) \<noteq> []
           then Some (pickMimeType (isTypeSupported w)) else None)]
     @ listener ds @ [A_recorderStart, A_setInterval (Suc (Suc (handles w))) 250])"
    by (simp add: startRecording_mic_added [OF assms(1) sr])
  have s: "added w (startRecording_mic ds h w) =
     ([A_newAudioContext,
        A_createMediaStreamSource SystemAudio, A_createMediaStreamSource MicAudio,
        A_createMediaStreamDestination, A_connect SystemAudio, A_connect MicAudio,
        A_newMediaStream (videoTracks ds @ audioTracks (destinationStream h)),
        A_newMediaRecorder
          (if pickMimeType (isTypeSupported w) \<noteq> []
           then Some (pickMimeType (isTypeSupported w)) else None)] @ listener ds)
     @ [A_recorderStart, A_setInterval (Suc (Suc (handles w))) 250]"
    using t by simp
  have 1: "precedes (A_connect SystemAudio) is_newMediaStream (added w (startRecording_mic ds h w))"
    unfolding t by (rule precedes_in_prefix) simp_all
  have 2: "precedes (A_connect MicAudio) is_newMediaStream (added w (startRecording_mic ds h w))"
    unfolding t by (rule precedes_in_prefix) simp_all
  have 3: "precedes (A_connect SystemAudio) is_newMediaRecorder (added w (startRecording_mic ds h w))"
    unfolding t by (rule precedes_in_prefix) simp_all
  have 4: "precedes (A_connect MicAudio) is_newMediaRecorder (added w (startRecording_mic ds h w))"
    unfolding t by (rule precedes_in_prefix) simp_all
  have 5: "precedes (A_connect SystemAudio) is_recorderStart (added w (startRecording_mic ds h w))"
    unfolding s by (rule precedes_in_prefix) (simp_all add: listener_plain)
  have 6: "precedes (A_connect MicAudio) is_recorderStart (added w (startRecording_mic ds h w))"
    unfolding s by (rule precedes_in_prefix) (simp_all add: listener_plain)
  from 1 2 3 4 5 6 show ?thesis by blast
qed

theorem audio_sources_connected_first_witness:
  "example_display \<in> set (awaitingMic example_acquiring)
   \<and> isRecording (startRecording_mic example_display example_answers example_acquiring)
   \<and> \<not> isRecording example_acquiring
   \<and> precedes (A_connect SystemAudio) is_newMediaStream
        (added example_acquiring
           (startRecording_mic example_display example_answers example_acquiring))
   \<and> precedes (A_connect MicAudio) is_recorderStart
        (added example_acquiring
           (startRecording_mic example_display example_answers example_acquiring))"
proof -
  have e: "startRecording_mic example_display example_answers example_acquiring
             = example_recording"
    by (simp add: example_recording_def run_def)
  have h1: "example_display \<in> set (awaitingMic example_acquiring)"
    by (simp add: example_acquiring_eq example_display_def)
  have h3: "isRecording (startRecording_mic example_display example_answers example_acquiring)"
    by (simp add: e example_recording_eq)
  have h4: "\<not> isRecording example_acquiring"
    by (simp add: example_acquiring_eq)
  have h2: "starts_recording example_display example_answers example_acquiring
            \<or> (isRecording (startRecording_mic example_display example_answers example_acquiring)
                \<and> \<not> isRecording example_acquiring)"
    using h3 h4 by simp
  show ?thesis
    using h1 h3 h4 audio_sources_connected_first [OF h1 h2]
    by simp
qed

subsection \<open>Format selection and the stop handler\<close>

lemma decimal_not_empty: "decimal n \<noteq> []"
  by (subst decimal.simps) simp

lemma onstop_added:
  "added w (onstop m w) =
     (case tickRef w of None \<Rightarrow> [] | Some i \<Rightarrow> if i = 0 then [] else [A_clearInterval i])
     @ [A_newBlob (sum_list (map blob_size (chunksRef w))) (or_default (Some m) ''video/webm''),
        A_createObjectURL (''blob:'' @ decimal (handles w)), A_cleanupStreams]
     @ map A_trackStop (cleanupTracks w)
     @ (case audioCtxRef w of None \<Rightarrow> [] | Some c \<Rightarrow> [A_audioContextClose c])"
  unfolding onstop_def Let_def
  by (simp add: added_def newBlob_def createObjectURL_def cleanupStreams_eq emit_def
        stopTimer_eq cleanupTracks_def Let_def split: option.splits)

lemma onstop_previewURL: "previewURL (onstop m w) = ''blob:'' @ decimal (handles w)"
  unfolding onstop_def Let_def
  by (simp add: newBlob_def createObjectURL_def cleanupStreams_eq emit_def
        stopTimer_eq Let_def split: option.splits)

lemma onstop_builds:
  "filter is_newBlob (added w (onstop m w)) =
     [A_newBlob (sum_list (map blob_size (chunksRef w))) (if m = [] then ''video/webm'' else m)]"
  by (simp add: onstop_added split: option.splits)

lemma pickMimeType_supported:
  "(pickMimeType supported \<noteq> []) = (\<exists>c\<in>set cand. supported c)"
  by (simp add: pickMimeType_def cand_def)

lemma pickMimeType_first:
  assumes "\<exists>c\<in>set cand. supported c"
  shows "\<exists>i<length cand. pickMimeType supported = cand ! i \<and> supported (cand ! i) \<and> (\<forall>j<i. \<not> supported (cand ! j))"
proof -
  from assms obtain c where f: "List.find supported cand = Some c"
    by (cases "List.find supported cand") (auto simp add: find_None_iff)
  then have "c \<in> set cand"
    by (auto simp add: find_Some_iff)
  then have "c \<noteq> []"
    by (auto simp add: cand_def)
  with f have "pickMimeType supported = c"
    by (simp add: pickMimeType_def)
  with f show ?thesis
    by (auto simp add: find_Some_iff)
qed

text \<open>
  C9. \<open>pickMimeType\<close> returns the first entry of the preference list that the browser
  reports as supported, and the empty string if there is none. A successful start
  constructs the recorder once, with that entry as its \<open>mimeType\<close> option, and with no
  option if there is none. The \<open>stop\<close> handler builds one Blob, of the type the handler
  closed over, and of type \<open>video/webm\<close> when that is the empty string.
\<close>

theorem format_selection:
  "(if \<exists>c\<in>set cand. supported c
    then \<exists>i<length cand. pickMimeType supported = cand ! i \<and> supported (cand ! i)
           \<and> (\<forall>j<i. \<not> supported (cand ! j))
    else pickMimeType supported = [])
   \<and> (fst (after_acquisition h ds ms v) = None \<longrightarrow>
        (\<exists>r. mediaRecorderRef (snd (after_acquisition h ds ms v)) = Some r
           \<and> rec_mimeType r = pickMimeType (isTypeSupported v)
           \<and> rec_options r = (if \<exists>c\<in>set cand. isTypeSupported v c
                               then Some (pickMimeType (isTypeSupported v)) else None)
           \<and> filter is_newMediaRecorder (added v (snd (after_acquisition h ds ms v)))
               = [A_newMediaRecorder (rec_options r)]))
   \<and> filter is_newBlob (added v (onstop m v))
       = [A_newBlob (sum_list (map blob_size (chunksRef v)))
            (if m = [] then ''video/webm'' else m)]"
proof -
  have 1: "if \<exists>c\<in>set cand. supported c
    then \<exists>i<length cand. pickMimeType supported = cand ! i \<and> supported (cand ! i)
           \<and> (\<forall>j<i. \<not> supported (cand ! j))
    else pickMimeType supported = []"
    using pickMimeType_first [of supported] pickMimeType_supported [of supported] by auto
  have 2: "fst (after_acquisition h ds ms v) = None \<longrightarrow>
        (\<exists>r. mediaRecorderRef (snd (after_acquisition h ds ms v)) = Some r
           \<and> rec_mimeType r = pickMimeType (isTypeSupported v)
           \<and> rec_options r = (if \<exists>c\<in>set cand. isTypeSupported v c
                               then Some (pickMimeType (isTypeSupported v)) else None)
           \<and> filter is_newMediaRecorder (added v (snd (after_acquisition h ds ms v)))
               = [A_newMediaRecorder (rec_options r)])"
  proof
    assume "fst (after_acquisition h ds ms v) = None"
    then have c: "newAudioContext_error h = None \<and> audioTracks ds \<noteq> []
         \<and> audioTracks ms \<noteq> [] \<and> newMediaRecorder_error h = None
         \<and> recorderStart_error h = None"
      by (rule after_acquisition_None)
    have l: "filter is_newMediaRecorder (listener ds) = []"
      by (simp add: listener_def split: list.splits)
    show "\<exists>r. mediaRecorderRef (snd (after_acquisition h ds ms v)) = Some r
           \<and> rec_mimeType r = pickMimeType (isTypeSupported v)
           \<and> rec_options r = (if \<exists>c\<in>set cand. isTypeSupported v c
                               then Some (pickMimeType (isTypeSupported v)) else None)
           \<and> filter is_newMediaRecorder (added v (snd (after_acquisition h ds ms v)))
               = [A_newMediaRecorder (rec_options r)]"
      using pickMimeType_supported [of "isTypeSupported v"]
      by (simp add: after_acquisition_ok [OF c] added_def l)
  qed
  from 1 2 onstop_builds [of v m] show ?thesis by blast
qed

theorem format_selection_witness:
  "fst (after_acquisition example_answers example_display \<lparr>videoTracks = [], audioTracks = [3]\<rparr>
          (mounted True webm_only False)) = None
   \<and> pickMimeType webm_only = ''video/webm''
   \<and> rec_options (the (mediaRecorderRef
         (snd (after_acquisition example_answers example_display
                 \<lparr>videoTracks = [], audioTracks = [3]\<rparr> (mounted True webm_only False)))))
       = Some ''video/webm''
   \<and> fst (after_acquisition example_answers example_display \<lparr>videoTracks = [], audioTracks = [3]\<rparr>
          (mounted True (\<lambda>c. False) False)) = None
   \<and> pickMimeType (\<lambda>c. False) = []
   \<and> rec_options (the (mediaRecorderRef
         (snd (after_acquisition example_answers example_display
                 \<lparr>videoTracks = [], audioTracks = [3]\<rparr> (mounted True (\<lambda>c. False) False)))))
       = None
   \<and> filter is_newBlob
        (added (mounted True (\<lambda>c. False) False)
           (onstop (pickMimeType (\<lambda>c. False)) (mounted True (\<lambda>c. False) False)))
       = [A_newBlob 0 ''video/webm'']"
proof -
  let ?ms = "\<lparr>videoTracks = [], audioTracks = [3::nat]\<rparr>"
  have c: "newAudioContext_error example_answers = None \<and> audioTracks example_display \<noteq> []
         \<and> audioTracks ?ms \<noteq> [] \<and> newMediaRecorder_error example_answers = None
         \<and> recorderStart_error example_answers = None"
    by (simp add: example_answers_def example_display_def)
  have s1: "fst (after_acquisition example_answers example_display ?ms
                   (mounted True webm_only False)) = None"
    and s2: "fst (after_acquisition example_answers example_display ?ms
                   (mounted True (\<lambda>c. False) False)) = None"
    by (simp_all add: after_acquisition_ok [OF c])
  have p1: "pickMimeType webm_only = ''video/webm''"
    and p2: "pickMimeType (\<lambda>c. False) = []"
    by (simp_all add: pickMimeType_def cand_def webm_only_def)
  have t1: "isTypeSupported (mounted True webm_only False) = webm_only"
    and t2: "isTypeSupported (mounted True (\<lambda>c. False) False) = (\<lambda>c. False)"
    and k: "chunksRef (mounted True (\<lambda>c. False) False) = []"
    by (simp_all add: mounted_def)
  have e: "\<exists>c\<in>set cand. webm_only c"
    by (simp add: cand_def webm_only_def)
  from format_selection [of webm_only example_answers example_display ?ms
      "mounted True webm_only False" "[]"] s1 t1 e p1
  have a: "rec_options (the (mediaRecorderRef
         (snd (after_acquisition example_answers example_display ?ms
                 (mounted True webm_only False)))))
       = Some ''video/webm''"
    by auto
  from format_selection [of "\<lambda>c. False" example_answers example_display ?ms
      "mounted True (\<lambda>c. False) False" "pickMimeType (\<lambda>c. False)"] s2 t2 p2 k
  have b: "rec_options (the (mediaRecorderRef
         (snd (after_acquisition example_answers example_display ?ms
                 (mounted True (\<lambda>c. False) False)))))
       = None
     \<and> filter is_newBlob
        (added (mounted True (\<lambda>c. False) False)
           (onstop (pickMimeType (\<lambda>c. False)) (mounted True (\<lambda>c. False) False)))
       = [A_newBlob 0 ''video/webm'']"
    by auto
  from s1 s2 p1 p2 a b show ?thesis by simp
qed

subsection \<open>The name of the download\<close>

lemma digit_in: "digit k \<in> set ''0123456789''"
  unfolding digit_def by (rule nth_mem) simp

lemma digit_plain [simp]:
  "digit k \<noteq> CHR '':''" "digit k \<noteq> CHR ''.''" "digit k \<noteq> CHR ''T''"
  using digit_in [of k] by auto

lemma decimal_field_2: "decimal_field 2 n = [digit (n div 10), digit n]"
  by (simp add: numeral_2_eq_2)

lemma decimal_field_3: "decimal_field 3 n = [digit (n div 10 div 10), digit (n div 10), digit n]"
  by (simp add: numeral_3_eq_3)

lemma decimal_field_4:
  "decimal_field 4 n =
     [digit (n div 10 div 10 div 10), digit (n div 10 div 10), digit (n div 10), digit n]"
proof -
  have e: "(4::nat) = Suc (Suc (Suc (Suc 0)))" by simp
  show ?thesis unfolding e by simp
qed

lemma timestamp_fields:
  assumes "0 \<le> year d" and "year d \<le> 9999"
  shows "timestamp d =
     decimal_field 4 (nat (year d)) @ ''-'' @ decimal_field 2 (month d) @ ''-''
     @ decimal_field 2 (day d) @ ''_'' @ decimal_field 2 (hours d) @ ''-''
     @ decimal_field 2 (minutes d) @ ''-'' @ decimal_field 2 (seconds d)"
  using assms
  by (simp add: timestamp_def toISOString_def replace_colon_dot_def decimal_field_2
        decimal_field_3 decimal_field_4)

lemma timestamp_shape:
  assumes "0 \<le> year d" and "year d \<le> 9999"
  shows "matches ''recording_####-##-##_##-##-##.webm'' (''recording_'' @ timestamp d @ ''.webm'')"
  using digit_in
  by (simp add: timestamp_fields [OF assms] decimal_field_2 decimal_field_4)

lemma handleDownload_added:
  assumes "previewURL w \<noteq> []" and "chunksRef w \<noteq> []"
  shows "added w (handleDownload d w) =
     [A_newBlob (sum_list (map blob_size (chunksRef w)))
        (or_default (Some (pickMimeType (isTypeSupported w))) ''video/webm''),
      A_createObjectURL (''blob:'' @ decimal (handles w)),
      A_download (''recording_'' @ timestamp d @ ''.webm'') (''blob:'' @ decimal (handles w))]"
  using assms
  unfolding handleDownload_def Let_def
  by (simp add: added_def newBlob_def createObjectURL_def emit_def Let_def)

text \<open>
  C4, as amended. The download action names the file after the Date that \<open>new Date()\<close>
  returns when Download is invoked. For a year from 0 to 9999 the name is
  \<open>recording_\<close>, the timestamp and \<open>.webm\<close>, where the timestamp is the year in four
  digits, the month, the day, an underscore, the hours, the minutes and the seconds in
  two digits each, joined by hyphens: the shape \<open>recording_YYYY-MM-DD_HH-MM-SS.webm\<close>,
  cut at the seconds.
\<close>

theorem download_file_name:
  assumes "previewURL w \<noteq> []" and "chunksRef w \<noteq> []" and "0 \<le> year d" and "year d \<le> 9999"
  shows "download_name (added w (handleDownload d w))
           = Some (''recording_'' @ timestamp d @ ''.webm'')
       \<and> timestamp d =
           decimal_field 4 (nat (year d)) @ ''-'' @ decimal_field 2 (month d) @ ''-''
           @ decimal_field 2 (day d) @ ''_'' @ decimal_field 2 (hours d) @ ''-''
           @ decimal_field 2 (minutes d) @ ''-'' @ decimal_field 2 (seconds d)
       \<and> matches ''recording_####-##-##_##-##-##.webm''
           (''recording_'' @ timestamp d @ ''.webm'')"
proof -
  have "download_name (added w (handleDownload d w))
           = Some (''recording_'' @ timestamp d @ ''.webm'')"
    by (simp add: handleDownload_added [OF assms(1,2)])
  with timestamp_fields [OF assms(3,4)] timestamp_shape [OF assms(3,4)]
  show ?thesis by blast
qed

lemma example_done_eq:
  "example_done =
     \<lparr>isSupported = True, isRecording = False, elapsedMs = 0, previewURL = ''blob:2'',
      error = '''',
      mediaRecorderRef = Some \<lparr>rec_state = Inactive, rec_options = Some ''video/webm'',
                                rec_mimeType = ''video/webm'', pending_stop = 0\<rparr>,
      chunksRef = [segment 1000],
      displayStreamRef = None, micStreamRef = None, mixedStreamRef = None,
      audioCtxRef = None, tickRef = None, startTimeRef = 1000,
      endedTracks = [4, 3, 2, 1], closedContexts = [0], intervals = [],
      objectURLs = [''blob:2''], handles = 3, closeThrows = False,
      isTypeSupported = webm_only, awaitingDisplay = 0, awaitingMic = [],
      trace = [A_getDisplayMedia, A_getUserMedia, A_newAudioContext,
               A_createMediaStreamSource SystemAudio, A_createMediaStreamSource MicAudio,
               A_createMediaStreamDestination, A_connect SystemAudio, A_connect MicAudio,
               A_newMediaStream [1, 4], A_newMediaRecorder (Some ''video/webm''),
               A_addEndedListener 1, A_recorderStart, A_setInterval 2 250, A_recorderStop,
               A_clearInterval 2, A_newBlob 1000 ''video/webm'', A_createObjectURL ''blob:2'',
               A_cleanupStreams, A_trackStop 1, A_trackStop 2, A_trackStop 3, A_trackStop 1,
               A_trackStop 4, A_audioContextClose 0]\<rparr>"
  by (simp add: example_done_def run_def example_recording_eq ondataavailable_def segment_def
        stopRecording_def stopTimer_eq emit_def recorder_stop_def onstop_def Let_def newBlob_def
        createObjectURL_def cleanupStreams_eq cleanupTracks_def streamTracks_def getTracks_def
        decimal.simps digit_def)

lemma example_timestamps:
  "timestamp example_date = ''2024-03-09_07-05-59''"
  "timestamp example_date_later = ''2024-03-09_07-06-00''"
  by (simp_all add: timestamp_fields example_date_def example_date_later_def decimal_field_2
        decimal_field_4 digit_def)

theorem download_file_name_witness:
  "previewURL example_done \<noteq> [] \<and> chunksRef example_done \<noteq> []
   \<and> 0 \<le> year example_date \<and> year example_date \<le> 9999
   \<and> download_name (added example_done (handleDownload example_date example_done))
       = Some ''recording_2024-03-09_07-05-59.webm''"
proof -
  have h1: "previewURL example_done \<noteq> []" and h2: "chunksRef example_done \<noteq> []"
    by (simp_all add: example_done_eq)
  have h3: "0 \<le> year example_date" and h4: "year example_date \<le> 9999"
    by (simp_all add: example_date_def)
  show ?thesis
    using h1 h2 h3 h4 download_file_name [OF h1 h2 h3 h4]
    by (simp add: example_timestamps)
qed

text \<open>
  C4 as stated fails: the name does not come from the completion of the attempt. The
  same completed attempt, downloaded at two instants, gets two names.
\<close>

theorem download_name_counterexample:
  "completed example_done
   \<and> download_name (added example_done (handleDownload example_date example_done))
       = Some ''recording_2024-03-09_07-05-59.webm''
   \<and> download_name (added example_done (handleDownload example_date_later example_done))
       = Some ''recording_2024-03-09_07-06-00.webm''"
proof -
  have h1: "previewURL example_done \<noteq> []" and h2: "chunksRef example_done \<noteq> []"
    by (simp_all add: example_done_eq)
  have c: "completed example_done"
    by (simp add: completed_def example_done_eq)
  show ?thesis
    using c by (simp add: handleDownload_added [OF h1 h2] example_timestamps)
qed

subsection \<open>An attempt without segments\<close>

lemma example_empty_eq:
  "example_empty =
     \<lparr>isSupported = True, isRecording = False, elapsedMs = 0, previewURL = ''blob:2'',
      error = '''',
      mediaRecorderRef = Some \<lparr>rec_state = Inactive, rec_options = Some ''video/webm'',
                                rec_mimeType = ''video/webm'', pending_stop = 0\<rparr>,
      chunksRef = [],
      displayStreamRef = None, micStreamRef = None, mixedStreamRef = None,
      audioCtxRef = None, tickRef = None, startTimeRef = 1000,
      endedTracks = [4, 3, 2, 1], closedContexts = [0], intervals = [],
      objectURLs = [''blob:2''], handles = 3, closeThrows = False,
      isTypeSupported = webm_only, awaitingDisplay = 0, awaitingMic = [],
      trace = [A_getDisplayMedia, A_getUserMedia, A_newAudioContext,
               A_createMediaStreamSource SystemAudio, A_createMediaStreamSource MicAudio,
               A_createMediaStreamDestination, A_connect SystemAudio, A_connect MicAudio,
               A_newMediaStream [1, 4], A_newMediaRecorder (Some ''video/webm''),
               A_addEndedListener 1, A_recorderStart, A_setInterval 2 250, A_recorderStop,
               A_clearInterval 2, A_newBlob 0 ''video/webm'', A_createObjectURL ''blob:2'',
               A_cleanupStreams, A_trackStop 1, A_trackStop 2, A_trackStop 3, A_trackStop 1,
               A_trackStop 4, A_audioContextClose 0]\<rparr>"
  by (simp add: example_empty_def run_def example_recording_eq
        stopRecording_def stopTimer_eq emit_def recorder_stop_def onstop_def Let_def newBlob_def
        createObjectURL_def cleanupStreams_eq cleanupTracks_def streamTracks_def getTracks_def
        decimal.simps digit_def)

text \<open>
  C3 as stated fails: an attempt stopped before any segment arrived ends with no
  segment, and yet the \<open>stop\<close> handler has built a Blob (of size 0), has published a
  preview handle, and the Download button is rendered.
\<close>

theorem empty_attempt_counterexample:
  "completed example_empty
   \<and> chunksRef example_empty = []
   \<and> filter is_newBlob (added example_recording example_empty) = [A_newBlob 0 ''video/webm'']
   \<and> previewURL example_empty = ''blob:2''
   \<and> download_enabled example_empty"
  by (simp add: completed_def download_enabled_def added_def example_empty_eq
        example_recording_eq)

text \<open>
  C3, as amended. When an attempt ends with no retained segment, the \<open>stop\<close> handler
  still builds one Blob, of size 0, and publishes its preview handle, so the Download
  button is rendered; the empty sequence is rejected by the download action: invoking
  Download then, or at any time the segment buffer is empty, changes nothing (no Blob,
  no handle, no download).
\<close>

theorem empty_attempt_download_rejected:
  "chunksRef w = [] \<Longrightarrow>
     filter is_newBlob (added w (onstop m w)) = [A_newBlob 0 (or_default (Some m) ''video/webm'')]
   \<and> previewURL (onstop m w) \<noteq> []
   \<and> download_enabled (onstop m w)
   \<and> chunksRef (onstop m w) = []
   \<and> handleDownload d (onstop m w) = onstop m w
   \<and> handleDownload d w = w"
  by (simp add: onstop_builds onstop_previewURL download_enabled_def onstop_chunks
        handleDownload_def)

theorem empty_attempt_download_rejected_witness:
  "chunksRef example_empty = []
   \<and> previewURL example_empty \<noteq> []
   \<and> handleDownload example_date example_empty = example_empty"
proof -
  have h: "chunksRef example_empty = []"
    by (simp add: example_empty_eq)
  have p: "previewURL example_empty \<noteq> []"
    by (simp add: example_empty_eq)
  show ?thesis
    using h p empty_attempt_download_rejected [OF h, of "''''" example_date]
    by simp
qed

subsection \<open>Two calls of startRecording in flight\<close>

lemma example_overlap_eq:
  "example_overlap =
     \<lparr>isSupported = True, isRecording = True, elapsedMs = 0, previewURL = '''', error = '''',
      mediaRecorderRef = Some \<lparr>rec_state = Recording, rec_options = Some ''video/webm'',
                                rec_mimeType = ''video/webm'', pending_stop = 0\<rparr>,
      chunksRef = [],
      displayStreamRef = Some \<lparr>videoTracks = [11], audioTracks = [12]\<rparr>,
      micStreamRef = Some \<lparr>videoTracks = [], audioTracks = [13]\<rparr>,
      mixedStreamRef = Some \<lparr>videoTracks = [11], audioTracks = [14]\<rparr>,
      audioCtxRef = Some 2, tickRef = Some 4, startTimeRef = 5000,
      endedTracks = [], closedContexts = [], intervals = [(4, 250), (2, 250)],
      objectURLs = [], handles = 4, closeThrows = False, isTypeSupported = webm_only,
      awaitingDisplay = 0, awaitingMic = [],
      trace = [A_getDisplayMedia, A_getDisplayMedia, A_getUserMedia, A_getUserMedia,
               A_newAudioContext, A_createMediaStreamSource SystemAudio,
               A_createMediaStreamSource MicAudio, A_createMediaStreamDestination,
               A_connect SystemAudio, A_connect MicAudio, A_newMediaStream [1, 4],
               A_newMediaRecorder (Some ''video/webm''), A_addEndedListener 1,
               A_recorderStart, A_setInterval 2 250, A_newAudioContext,
               A_createMediaStreamSource SystemAudio, A_createMediaStreamSource MicAudio,
               A_createMediaStreamDestination, A_connect SystemAudio, A_connect MicAudio,
               A_newMediaStream [11, 14], A_newMediaRecorder (Some ''video/webm''),
               A_addEndedListener 11, A_recorderStart, A_setInterval 4 250]\<rparr>"
  by (simp add: example_overlap_def run_def mounted_def startRecording_def
        startRecording_display_def startRecording_mic_def after_acquisition_def
        example_display_def example_display_b_def example_answers_def example_answers_b_def
        Let_def emit_def pickMimeType_def cand_def webm_only_def startTimer_def
        setInterval_def getTracks_def)

lemma example_overlap_stopped_eq:
  "example_overlap_stopped =
     \<lparr>isSupported = True, isRecording = False, elapsedMs = 0, previewURL = ''blob:4'',
      error = '''',
      mediaRecorderRef = Some \<lparr>rec_state = Inactive, rec_options = Some ''video/webm'',
                                rec_mimeType = ''video/webm'', pending_stop = 0\<rparr>,
      chunksRef = [],
      displayStreamRef = None, micStreamRef = None, mixedStreamRef = None,
      audioCtxRef = None, tickRef = None, startTimeRef = 5000,
      endedTracks = [14, 13, 12, 11], closedContexts = [2], intervals = [(2, 250)],
      objectURLs = [''blob:4''], handles = 5, closeThrows = False,
      isTypeSupported = webm_only, awaitingDisplay = 0, awaitingMic = [],
      trace = trace example_overlap
              @ [A_recorderStop, A_clearInterval 4, A_newBlob 0 ''video/webm'',
                 A_createObjectURL ''blob:4'', A_cleanupStreams, A_trackStop 11,
                 A_trackStop 12, A_trackStop 13, A_trackStop 11, A_trackStop 14,
                 A_audioContextClose 2]\<rparr>"
  by (simp add: example_overlap_stopped_def run_def example_overlap_eq
        stopRecording_def stopTimer_eq emit_def recorder_stop_def onstop_def Let_def newBlob_def
        createObjectURL_def cleanupStreams_eq cleanupTracks_def streamTracks_def getTracks_def
        decimal.simps digit_def)

text \<open>
  C1 fails on the code where two calls of \<open>startRecording\<close> overlap. Start is clicked
  twice before the first screen request is settled: \<open>isRecording\<close> is still false, so
  the second call passes the guard of line 80 as the first did. Both calls are granted
  their streams, and each constructs and starts a recorder and a timer: two attempts
  reach the recording state. The second call overwrites the references the first one
  set, so the refs name the second attempt only. Stop, in any number and from any
  trigger, then calls \<open>stop\<close> once, on the second recorder, and \<open>cleanupStreams\<close> runs
  once, on the second attempt's streams and context: the tracks 1 to 4 and the audio
  context 0 of the first attempt are never released, its recorder is never stopped,
  and its interval 2 is never cleared and goes on ticking.
\<close>

theorem overlapping_starts_orphan_attempt:
  "length (filter is_recorderStart (trace example_overlap)) = 2
   \<and> displayStreamRef example_overlap = Some example_display_b
   \<and> audioCtxRef example_overlap = Some 2
   \<and> tickRef example_overlap = Some 4
   \<and> intervals example_overlap = [(4, 250), (2, 250)]
   \<and> completed example_overlap_stopped
   \<and> stops example_overlap_stopped = 1
   \<and> cleanups example_overlap_stopped = 1
   \<and> endedTracks example_overlap_stopped = [14, 13, 12, 11]
   \<and> closedContexts example_overlap_stopped = [2]
   \<and> intervals example_overlap_stopped = [(2, 250)]
   \<and> elapsedMs (run [Tick 500000] example_overlap_stopped) = 495000"
  by (simp add: example_overlap_stopped_eq completed_def stops_def cleanups_def run_def
        tick_def Let_def MAX_DURATION_MS_def stopRecording_timer)
     (simp add: example_overlap_eq example_display_b_def)


end
